theory Spec2Isabelle
  imports Complex_Main
begin

section \<open>retry-simple: the retry control loop of src/index.ts\<close>

text \<open>
  The development embeds the function \<open>retry\<close> of \<open>src/index.ts\<close>.

  Numbers: \<open>retries\<close> and the attempt counter are integers, durations (\<open>delay\<close>,
  \<open>maxDelay\<close>, \<open>timeout\<close>, the computed wait) and the value of \<open>Math.random()\<close> are
  exact reals; the rounding of IEEE doubles, \<open>NaN\<close> and \<open>Infinity\<close> are outside the model.

  Effects: the operation \<open>fn\<close> is given by what its \<open>n\<close>-th invocation does (the loop
  invokes it once per attempt, so \<open>n\<close> is the attempt number); \<open>Math.random()\<close> is given by
  the value of its \<open>k\<close>-th draw; every call the loop makes to the outside (the operation,
  \<open>shouldRetry\<close>, \<open>onRetry\<close>, the sleeping \<open>setTimeout\<close>) is recorded, in order, in a trace.
  A call of a hook either returns or throws; the loop calls the hooks outside any \<open>try\<close>,
  so what a hook throws leaves \<open>retry\<close>.
\<close>

subsection \<open>Data\<close>

text \<open>A thrown value (\<open>unknown\<close> in the source): \<open>new Error(message)\<close>, or any other value.\<close>

datatype 'e thrown = Error string | Value 'e

text \<open>How a promise settles.\<close>

datatype ('e, 'a) settled = Resolved 'a | Rejected "'e thrown"

text \<open>
  What one invocation \<open>fn()\<close> does: its promise settles, a number of milliseconds after
  the invocation (a synchronous throw is a rejection after \<open>0\<close>), or it never settles.
\<close>

datatype ('e, 'a) promise = Settles real "('e, 'a) settled" | Pending

text \<open>How a call of a hook ends: it returns a value, or it throws.\<close>

datatype ('e, 'r) call = Returns 'r | Throws "'e thrown"

text \<open>The interface \<open>RetryOptions\<close>: every field is optional (\<open>None\<close> is \<open>undefined\<close>).\<close>

record 'e RetryOptions =
  retries :: "int option"
  delay :: "real option"
  backoff :: "bool option"
  jitter :: "bool option"
  maxDelay :: "real option"
  timeout :: "real option"
  onRetry :: "('e thrown \<Rightarrow> nat \<Rightarrow> ('e, unit) call) option"
  shouldRetry :: "('e thrown \<Rightarrow> nat \<Rightarrow> ('e, bool) call) option"

text \<open>The calls that \<open>retry\<close> makes, with their arguments.\<close>

datatype 'e event =
    Invoke nat
  | ShouldRetry "'e thrown" nat
  | OnRetry "'e thrown" nat
  | Wait real

text \<open>How a call of \<open>retry\<close> ends: its promise resolves, rejects, or never settles.\<close>

datatype ('e, 'a) result = Return 'a | Throw "'e thrown" | Hang

subsection \<open>The destructuring defaults (lines 49 to 58)\<close>

definition retries_of :: "'e RetryOptions \<Rightarrow> int" where
  "retries_of options = (case retries options of None \<Rightarrow> 3 | Some r \<Rightarrow> r)"

definition delay_of :: "'e RetryOptions \<Rightarrow> real" where
  "delay_of options = (case delay options of None \<Rightarrow> 1000 | Some d \<Rightarrow> d)"

definition backoff_of :: "'e RetryOptions \<Rightarrow> bool" where
  "backoff_of options = (case backoff options of None \<Rightarrow> False | Some b \<Rightarrow> b)"

definition jitter_of :: "'e RetryOptions \<Rightarrow> bool" where
  "jitter_of options = (case jitter options of None \<Rightarrow> False | Some b \<Rightarrow> b)"

definition shouldRetry_of :: "'e RetryOptions \<Rightarrow> 'e thrown \<Rightarrow> nat \<Rightarrow> ('e, bool) call" where
  "shouldRetry_of options =
     (case shouldRetry options of None \<Rightarrow> (\<lambda>error attempt. Returns True) | Some p \<Rightarrow> p)"

subsection \<open>Truthiness of an optional number\<close>

text \<open>
  \<open>timeout ? ... : ...\<close> and \<open>maxDelay && ...\<close> test the number itself: \<open>undefined\<close> and
  \<open>0\<close> are both falsy.
\<close>

definition truthy :: "real option \<Rightarrow> bool" where
  "truthy x = (case x of None \<Rightarrow> False | Some v \<Rightarrow> v \<noteq> 0)"

subsection \<open>One attempt (lines 68 to 78)\<close>

text \<open>
  The host's \<open>setTimeout(callback, ms)\<close> (Node.js): a delay that is not within 1 and
  2147483647 is set to 1; the callback runs that many milliseconds after the call.
  The whole-millisecond granularity of the host's clock is not modelled.
\<close>

definition timer_delay :: "real \<Rightarrow> real" where
  "timer_delay ms = (if 1 \<le> ms \<and> ms \<le> 2147483647 then ms else 1)"

text \<open>
  Without a truthy \<open>timeout\<close> the attempt is \<open>await fn()\<close>. With one, \<open>fn()\<close> is raced
  against a timer, set with \<open>setTimeout(..., timeout)\<close>, that rejects with
  \<open>new Error("Operation timed out")\<close>; \<open>fn()\<close> is the first entry of the race and is invoked
  before the timer is armed, so it wins when it settles no later than the timer fires.
  \<open>None\<close>: the awaited promise never settles.
\<close>

definition attempt_outcome :: "real option \<Rightarrow> ('e, 'a) promise \<Rightarrow> ('e, 'a) settled option" where
  "attempt_outcome tmo p =
     (if truthy tmo then
        (case p of
           Settles d s \<Rightarrow>
             if d \<le> timer_delay (the tmo) then Some s
             else Some (Rejected (Error ''Operation timed out''))
         | Pending \<Rightarrow> Some (Rejected (Error ''Operation timed out'')))
      else
        (case p of Settles d s \<Rightarrow> Some s | Pending \<Rightarrow> None))"

subsection \<open>The next delay (lines 92 to 99)\<close>

text \<open>\<open>waitTime\<close> after the backoff and the cap, before the jitter (lines 92 to 95).\<close>

definition capped_delay :: "'e RetryOptions \<Rightarrow> real \<Rightarrow> real" where
  "capped_delay options currentDelay =
     (let waitTime = currentDelay;
          waitTime = (if backoff_of options then waitTime * 2 else waitTime)
      in if truthy (maxDelay options) \<and> waitTime > the (maxDelay options)
         then the (maxDelay options) else waitTime)"

text \<open>\<open>randomFactor\<close> for the value \<open>r\<close> that \<open>Math.random()\<close> returned (line 97).\<close>

definition randomFactor :: "real \<Rightarrow> real" where
  "randomFactor r = r * 0.4 + 0.8"

text \<open>\<open>waitTime\<close> as it is passed to \<open>setTimeout\<close> (lines 92 to 99).\<close>

definition waitTime_of :: "'e RetryOptions \<Rightarrow> real \<Rightarrow> real \<Rightarrow> real" where
  "waitTime_of options currentDelay r =
     (let waitTime = capped_delay options currentDelay
      in if jitter_of options then waitTime * randomFactor r else waitTime)"

text \<open>\<open>Math.random()\<close> is called only under \<open>jitter\<close>: the number of draws made so far.\<close>

definition draws_after :: "'e RetryOptions \<Rightarrow> nat \<Rightarrow> nat" where
  "draws_after options k = (if jitter_of options then Suc k else k)"

subsection \<open>The loop (lines 63 to 108)\<close>

definition prepend :: "'e event list \<Rightarrow> ('e, 'a) result \<times> 'e event list \<Rightarrow> ('e, 'a) result \<times> 'e event list" where
  "prepend evs r = (fst r, evs @ snd r)"

text \<open>
  \<open>onRetry?.(error, attempt)\<close> (line 89): nothing is called when no hook is supplied; else
  the hook is called, and the call returns or throws.
\<close>

definition onRetry_event :: "'e RetryOptions \<Rightarrow> 'e thrown \<Rightarrow> nat \<Rightarrow> 'e event list" where
  "onRetry_event options error attempt =
     (case onRetry options of None \<Rightarrow> [] | Some hook \<Rightarrow> [OnRetry error attempt])"

definition onRetry_call :: "'e RetryOptions \<Rightarrow> 'e thrown \<Rightarrow> nat \<Rightarrow> ('e, unit) call" where
  "onRetry_call options error attempt =
     (case onRetry options of None \<Rightarrow> Returns () | Some hook \<Rightarrow> hook error attempt)"

text \<open>
  The state of the loop is \<open>attempt\<close>, \<open>currentDelay\<close> and the number \<open>k\<close> of random draws
  made so far. The result is how \<open>retry\<close> ends, with the trace from this iteration on.
  In the \<open>catch\<close> block, \<open>shouldRetry\<close> is called only when the attempt is not the last
  (\<open>&&\<close> short-circuits); what \<open>shouldRetry\<close> or \<open>onRetry\<close> throws is thrown by \<open>retry\<close>.
\<close>

function retry_loop ::
  "(nat \<Rightarrow> ('e, 'a) promise) \<Rightarrow> (nat \<Rightarrow> real) \<Rightarrow> 'e RetryOptions \<Rightarrow>
   nat \<Rightarrow> real \<Rightarrow> nat \<Rightarrow> ('e, 'a) result \<times> 'e event list" where
  "retry_loop fn random options attempt currentDelay k =
     (if int attempt \<le> retries_of options then
        (case attempt_outcome (timeout options) (fn (Suc attempt)) of
           None \<Rightarrow> (Hang, [Invoke (Suc attempt)])
         | Some (Resolved result) \<Rightarrow> (Return result, [Invoke (Suc attempt)])
         | Some (Rejected error) \<Rightarrow>
             (if int (Suc attempt) > retries_of options then
                (Throw error, [Invoke (Suc attempt)])
              else
                (case shouldRetry_of options error (Suc attempt) of
                   Throws x \<Rightarrow>
                     (Throw x, [Invoke (Suc attempt), ShouldRetry error (Suc attempt)])
                 | Returns canRetry \<Rightarrow>
                     if \<not> canRetry then
                       (Throw error, [Invoke (Suc attempt), ShouldRetry error (Suc attempt)])
                     else
                       (case onRetry_call options error (Suc attempt) of
                          Throws x \<Rightarrow>
                            (Throw x, [Invoke (Suc attempt), ShouldRetry error (Suc attempt)]
                                      @ onRetry_event options error (Suc attempt))
                        | Returns u \<Rightarrow>
                            prepend
                              ([Invoke (Suc attempt), ShouldRetry error (Suc attempt)]
                               @ onRetry_event options error (Suc attempt)
                               @ [Wait (waitTime_of options currentDelay (random k))])
                              (retry_loop fn random options (Suc attempt)
                                 (waitTime_of options currentDelay (random k))
                                 (draws_after options k))))))
      else (Throw (Error ''Retry attempts exhausted.''), []))"
  by pat_completeness auto

termination
  by (relation "measure (\<lambda>(fn, random, options, attempt, currentDelay, k).
                  nat (retries_of options + 1 - int attempt))") auto

declare retry_loop.simps [simp del]

text \<open>\<open>retry(fn, options)\<close>: \<open>attempt = 0\<close>, \<open>currentDelay = delay\<close>, no draw made yet.\<close>

definition retry ::
  "(nat \<Rightarrow> ('e, 'a) promise) \<Rightarrow> (nat \<Rightarrow> real) \<Rightarrow> 'e RetryOptions \<Rightarrow> ('e, 'a) result \<times> 'e event list" where
  "retry fn random options = retry_loop fn random options 0 (delay_of options) 0"

subsection \<open>Reading a trace\<close>

fun invocations :: "'e event list \<Rightarrow> nat list" where
  "invocations [] = []"
| "invocations (Invoke n # evs) = n # invocations evs"
| "invocations (ev # evs) = invocations evs"

fun waits :: "'e event list \<Rightarrow> real list" where
  "waits [] = []"
| "waits (Wait w # evs) = w # waits evs"
| "waits (ev # evs) = waits evs"

fun onRetry_calls :: "'e event list \<Rightarrow> ('e thrown \<times> nat) list" where
  "onRetry_calls [] = []"
| "onRetry_calls (OnRetry error n # evs) = (error, n) # onRetry_calls evs"
| "onRetry_calls (ev # evs) = onRetry_calls evs"

fun shouldRetry_calls :: "'e event list \<Rightarrow> ('e thrown \<times> nat) list" where
  "shouldRetry_calls [] = []"
| "shouldRetry_calls (ShouldRetry error n # evs) = (error, n) # shouldRetry_calls evs"
| "shouldRetry_calls (ev # evs) = shouldRetry_calls evs"

text \<open>How the promise of \<open>retry\<close> settles when it follows the promise of an attempt.\<close>

definition settle_result :: "('e, 'a) settled option \<Rightarrow> ('e, 'a) result" where
  "settle_result s = (case s of None \<Rightarrow> Hang | Some (Resolved v) \<Rightarrow> Return v | Some (Rejected error) \<Rightarrow> Throw error)"

subsection \<open>The delays of a run as a fold\<close>

text \<open>
  The first \<open>n\<close> steps of the delay computation from the loop state \<open>currentDelay\<close>, \<open>k\<close>:
  each step gives the delay before the jitter and the delay waited for, and the delay
  waited for is the \<open>currentDelay\<close> of the next step (line 104).
\<close>

fun delay_steps :: "'e RetryOptions \<Rightarrow> (nat \<Rightarrow> real) \<Rightarrow> real \<Rightarrow> nat \<Rightarrow> nat \<Rightarrow> (real \<times> real) list" where
  "delay_steps options random currentDelay k 0 = []"
| "delay_steps options random currentDelay k (Suc n) =
     (capped_delay options currentDelay, waitTime_of options currentDelay (random k))
     # delay_steps options random (waitTime_of options currentDelay (random k)) (draws_after options k) n"

text \<open>A wait \<open>w\<close> lies between \<open>0.8\<close> times and \<open>1.2\<close> times the delay \<open>p\<close>, inclusive.\<close>

definition within_jitter :: "real \<Rightarrow> real \<Rightarrow> bool" where
  "within_jitter p w = (if 0 \<le> p then 0.8 * p \<le> w \<and> w \<le> 1.2 * p else 1.2 * p \<le> w \<and> w \<le> 0.8 * p)"

subsection \<open>The delay computation in the words of the specification\<close>

text \<open>
  Section 4.3 of the specification, \<open>computeNextDelay(currentDelay, config)\<close>, step by step:
  start from \<open>currentDelay\<close>; double it if \<open>backoff\<close>; clamp it to \<open>maxDelay\<close> if \<open>maxDelay\<close> is
  set and exceeded; multiply it by the random factor if \<open>jitter\<close>. This definition follows
  the specification, not the source; it is compared with \<open>waitTime_of\<close> below.
\<close>

definition spec_computeNextDelay :: "real \<Rightarrow> 'e RetryOptions \<Rightarrow> real \<Rightarrow> real" where
  "spec_computeNextDelay currentDelay config factor =
     (let d = currentDelay;
          d = (if backoff_of config then d * 2 else d);
          d = (case maxDelay config of None \<Rightarrow> d | Some m \<Rightarrow> if d > m then m else d);
          d = (if jitter_of config then d * factor else d)
      in d)"

subsection \<open>Operations that take long\<close>

text \<open>The promise is still unsettled \<open>t\<close> milliseconds after the invocation.\<close>

definition takes_longer :: "real \<Rightarrow> ('e, 'a) promise \<Rightarrow> bool" where
  "takes_longer t p = (case p of Settles d s \<Rightarrow> d > t | Pending \<Rightarrow> True)"

text \<open>
  The operation that behaves as \<open>fn\<close>, except that an attempt on which \<open>fn\<close> takes longer
  than \<open>t\<close> rejects at once with \<open>new Error("Operation timed out")\<close>.
\<close>

definition rejecting_on_timeout :: "real \<Rightarrow> (nat \<Rightarrow> ('e, 'a) promise) \<Rightarrow> nat \<Rightarrow> ('e, 'a) promise" where
  "rejecting_on_timeout t fn n =
     (if takes_longer t (fn n) then Settles 0 (Rejected (Error ''Operation timed out'')) else fn n)"

subsection \<open>Concrete inputs\<close>

text \<open>\<open>options = {}\<close>.\<close>

definition defaults :: "'e RetryOptions" where
  "defaults = \<lparr>retries = None, delay = None, backoff = None, jitter = None, maxDelay = None,
                timeout = None, onRetry = None, shouldRetry = None\<rparr>"

text \<open>An operation that rejects, after 5 ms, with the number of the attempt.\<close>

definition failing :: "nat \<Rightarrow> (nat, string) promise" where
  "failing n = Settles 5 (Rejected (Value n))"

text \<open>A random source that returns \<open>0.5\<close> at every draw.\<close>

definition half :: "nat \<Rightarrow> real" where
  "half k = 1 / 2"

text \<open>An operation that rejects on attempt 1 and resolves from attempt 2 on.\<close>

definition flaky :: "nat \<Rightarrow> (nat, string) promise" where
  "flaky n = (if n < 2 then Settles 5 (Rejected (Value n)) else Settles 5 (Resolved ''ok''))"

text \<open>
  An \<open>onRetry\<close> hook that returns, one that throws, and a \<open>shouldRetry\<close> that always
  declines.
\<close>

definition hook :: "'e thrown \<Rightarrow> nat \<Rightarrow> ('e, unit) call" where
  "hook error attempt = Returns ()"

definition throwing_hook :: "'e thrown \<Rightarrow> nat \<Rightarrow> ('e, unit) call" where
  "throwing_hook error attempt = Throws (Error ''hook failed'')"

definition never_retry :: "'e thrown \<Rightarrow> nat \<Rightarrow> ('e, bool) call" where
  "never_retry error attempt = Returns False"

text \<open>An operation that resolves after 2000 ms, at every attempt.\<close>

definition slowTask :: "nat \<Rightarrow> (nat, string) promise" where
  "slowTask n = Settles 2000 (Resolved ''Done'')"

text \<open>An operation that resolves after 1 ms, at every attempt.\<close>

definition quickTask :: "nat \<Rightarrow> (nat, string) promise" where
  "quickTask n = Settles 1 (Resolved ''Done'')"

text \<open>A random source that returns \<open>0\<close>, the least value of \<open>Math.random()\<close>, at every draw.\<close>

definition least_random :: "nat \<Rightarrow> real" where
  "least_random k = 0"

section \<open>Properties\<close>

subsection \<open>Unfolding the loop\<close>

lemma fst_prepend [simp]: "fst (prepend evs r) = fst r"
  by (simp add: prepend_def)

lemma snd_prepend [simp]: "snd (prepend evs r) = evs @ snd r"
  by (simp add: prepend_def)

lemma invocations_append [simp]: "invocations (xs @ ys) = invocations xs @ invocations ys"
  by (induction xs rule: invocations.induct) simp_all

lemma waits_append [simp]: "waits (xs @ ys) = waits xs @ waits ys"
  by (induction xs rule: waits.induct) simp_all

lemma onRetry_calls_append [simp]: "onRetry_calls (xs @ ys) = onRetry_calls xs @ onRetry_calls ys"
  by (induction xs rule: onRetry_calls.induct) simp_all

lemma shouldRetry_calls_append [simp]:
  "shouldRetry_calls (xs @ ys) = shouldRetry_calls xs @ shouldRetry_calls ys"
  by (induction xs rule: shouldRetry_calls.induct) simp_all

lemma invocations_onRetry_event [simp]: "invocations (onRetry_event options error n) = []"
  by (simp add: onRetry_event_def split: option.split)

lemma waits_onRetry_event [simp]: "waits (onRetry_event options error n) = []"
  by (simp add: onRetry_event_def split: option.split)

lemma shouldRetry_calls_onRetry_event [simp]:
  "shouldRetry_calls (onRetry_event options error n) = []"
  by (simp add: onRetry_event_def split: option.split)

lemma retry_loop_exhausted:
  "\<not> int attempt \<le> retries_of options \<Longrightarrow>
   retry_loop fn random options attempt currentDelay k = (Throw (Error ''Retry attempts exhausted.''), [])"
  by (simp add: retry_loop.simps)

lemma retry_loop_pending:
  "int attempt \<le> retries_of options \<Longrightarrow>
   attempt_outcome (timeout options) (fn (Suc attempt)) = None \<Longrightarrow>
   retry_loop fn random options attempt currentDelay k = (Hang, [Invoke (Suc attempt)])"
  by (simp add: retry_loop.simps)

lemma retry_loop_success:
  "int attempt \<le> retries_of options \<Longrightarrow>
   attempt_outcome (timeout options) (fn (Suc attempt)) = Some (Resolved v) \<Longrightarrow>
   retry_loop fn random options attempt currentDelay k = (Return v, [Invoke (Suc attempt)])"
  by (simp add: retry_loop.simps)

lemma retry_loop_last:
  "int attempt \<le> retries_of options \<Longrightarrow>
   attempt_outcome (timeout options) (fn (Suc attempt)) = Some (Rejected error) \<Longrightarrow>
   int (Suc attempt) > retries_of options \<Longrightarrow>
   retry_loop fn random options attempt currentDelay k = (Throw error, [Invoke (Suc attempt)])"
  by (simp add: retry_loop.simps)

lemma retry_loop_predicate_throws:
  "int attempt \<le> retries_of options \<Longrightarrow>
   attempt_outcome (timeout options) (fn (Suc attempt)) = Some (Rejected error) \<Longrightarrow>
   \<not> int (Suc attempt) > retries_of options \<Longrightarrow>
   shouldRetry_of options error (Suc attempt) = Throws x \<Longrightarrow>
   retry_loop fn random options attempt currentDelay k =
     (Throw x, [Invoke (Suc attempt), ShouldRetry error (Suc attempt)])"
  by (simp add: retry_loop.simps)

lemma retry_loop_declined:
  "int attempt \<le> retries_of options \<Longrightarrow>
   attempt_outcome (timeout options) (fn (Suc attempt)) = Some (Rejected error) \<Longrightarrow>
   \<not> int (Suc attempt) > retries_of options \<Longrightarrow>
   shouldRetry_of options error (Suc attempt) = Returns False \<Longrightarrow>
   retry_loop fn random options attempt currentDelay k =
     (Throw error, [Invoke (Suc attempt), ShouldRetry error (Suc attempt)])"
  by (simp add: retry_loop.simps)

lemma retry_loop_hook_throws:
  "int attempt \<le> retries_of options \<Longrightarrow>
   attempt_outcome (timeout options) (fn (Suc attempt)) = Some (Rejected error) \<Longrightarrow>
   \<not> int (Suc attempt) > retries_of options \<Longrightarrow>
   shouldRetry_of options error (Suc attempt) = Returns True \<Longrightarrow>
   onRetry_call options error (Suc attempt) = Throws x \<Longrightarrow>
   retry_loop fn random options attempt currentDelay k =
     (Throw x, [Invoke (Suc attempt), ShouldRetry error (Suc attempt)]
               @ onRetry_event options error (Suc attempt))"
  by (simp add: retry_loop.simps)

lemma retry_loop_again:
  "int attempt \<le> retries_of options \<Longrightarrow>
   attempt_outcome (timeout options) (fn (Suc attempt)) = Some (Rejected error) \<Longrightarrow>
   \<not> int (Suc attempt) > retries_of options \<Longrightarrow>
   shouldRetry_of options error (Suc attempt) = Returns True \<Longrightarrow>
   onRetry_call options error (Suc attempt) = Returns () \<Longrightarrow>
   retry_loop fn random options attempt currentDelay k =
     prepend
       ([Invoke (Suc attempt), ShouldRetry error (Suc attempt)]
        @ onRetry_event options error (Suc attempt)
        @ [Wait (waitTime_of options currentDelay (random k))])
       (retry_loop fn random options (Suc attempt)
          (waitTime_of options currentDelay (random k)) (draws_after options k))"
  by (simp add: retry_loop.simps)

text \<open>The ways in which one iteration can go.\<close>

lemma retry_loop_cases:
  obtains (exhausted) "\<not> int attempt \<le> retries_of options"
  | (pending) "int attempt \<le> retries_of options"
      "attempt_outcome (timeout options) (fn (Suc attempt)) = None"
  | (success) v where "int attempt \<le> retries_of options"
      "attempt_outcome (timeout options) (fn (Suc attempt)) = Some (Resolved v)"
  | (last) error where "int attempt \<le> retries_of options"
      "attempt_outcome (timeout options) (fn (Suc attempt)) = Some (Rejected error)"
      "int (Suc attempt) > retries_of options"
  | (predicate_throws) error x where "int attempt \<le> retries_of options"
      "attempt_outcome (timeout options) (fn (Suc attempt)) = Some (Rejected error)"
      "\<not> int (Suc attempt) > retries_of options"
      "shouldRetry_of options error (Suc attempt) = Throws x"
  | (declined) error where "int attempt \<le> retries_of options"
      "attempt_outcome (timeout options) (fn (Suc attempt)) = Some (Rejected error)"
      "\<not> int (Suc attempt) > retries_of options"
      "shouldRetry_of options error (Suc attempt) = Returns False"
  | (hook_throws) error x where "int attempt \<le> retries_of options"
      "attempt_outcome (timeout options) (fn (Suc attempt)) = Some (Rejected error)"
      "\<not> int (Suc attempt) > retries_of options"
      "shouldRetry_of options error (Suc attempt) = Returns True"
      "onRetry_call options error (Suc attempt) = Throws x"
  | (again) error where "int attempt \<le> retries_of options"
      "attempt_outcome (timeout options) (fn (Suc attempt)) = Some (Rejected error)"
      "\<not> int (Suc attempt) > retries_of options"
      "shouldRetry_of options error (Suc attempt) = Returns True"
      "onRetry_call options error (Suc attempt) = Returns ()"
proof (cases "int attempt \<le> retries_of options")
  case False then show ?thesis using exhausted by blast
next
  case le: True
  show ?thesis
  proof (cases "attempt_outcome (timeout options) (fn (Suc attempt))")
    case None then show ?thesis using pending le by blast
  next
    case (Some s)
    show ?thesis
    proof (cases s)
      case (Resolved v) then show ?thesis using success le Some by blast
    next
      case (Rejected error)
      show ?thesis
      proof (cases "int (Suc attempt) > retries_of options")
        case True then show ?thesis using last le Some Rejected by blast
      next
        case notlast: False
        show ?thesis
        proof (cases "shouldRetry_of options error (Suc attempt)")
          case (Throws x)
          then show ?thesis using predicate_throws le Some Rejected notlast by blast
        next
          case (Returns canRetry)
          show ?thesis
          proof (cases canRetry)
            case False
            then show ?thesis using declined le Some Rejected notlast Returns by simp
          next
            case True
            show ?thesis
            proof (cases "onRetry_call options error (Suc attempt)")
              case (Throws x)
              then show ?thesis using hook_throws le Some Rejected notlast Returns True by simp
            next
              case r: (Returns u)
              then have "onRetry_call options error (Suc attempt) = Returns ()" by simp
              then show ?thesis using again le Some Rejected notlast Returns True by simp
            qed
          qed
        qed
      qed
    qed
  qed
qed

subsection \<open>Induction over the iterations\<close>

lemma retry_loop_induct [case_names stop again]:
  assumes stop: "\<And>attempt currentDelay k.
            (\<forall>error. int attempt \<le> retries_of options \<longrightarrow>
               attempt_outcome (timeout options) (fn (Suc attempt)) = Some (Rejected error) \<longrightarrow>
               \<not> int (Suc attempt) > retries_of options \<longrightarrow>
               shouldRetry_of options error (Suc attempt) = Returns True \<longrightarrow>
               onRetry_call options error (Suc attempt) \<noteq> Returns ()) \<Longrightarrow> P attempt currentDelay k"
      and again: "\<And>attempt currentDelay k error.
            int attempt \<le> retries_of options \<Longrightarrow>
            attempt_outcome (timeout options) (fn (Suc attempt)) = Some (Rejected error) \<Longrightarrow>
            \<not> int (Suc attempt) > retries_of options \<Longrightarrow>
            shouldRetry_of options error (Suc attempt) = Returns True \<Longrightarrow>
            onRetry_call options error (Suc attempt) = Returns () \<Longrightarrow>
            P (Suc attempt) (waitTime_of options currentDelay (random k)) (draws_after options k) \<Longrightarrow>
            P attempt currentDelay k"
  shows "P attempt currentDelay k"
proof (induction "nat (retries_of options + 1 - int attempt)" arbitrary: attempt currentDelay k)
  case 0
  then have "\<not> int attempt \<le> retries_of options" by linarith
  then show ?case by (intro stop) simp
next
  case (Suc m attempt currentDelay k)
  show ?case
  proof (cases "\<exists>error. int attempt \<le> retries_of options \<and>
               attempt_outcome (timeout options) (fn (Suc attempt)) = Some (Rejected error) \<and>
               \<not> int (Suc attempt) > retries_of options \<and>
               shouldRetry_of options error (Suc attempt) = Returns True \<and>
               onRetry_call options error (Suc attempt) = Returns ()")
    case True
    then obtain error where h: "int attempt \<le> retries_of options"
      "attempt_outcome (timeout options) (fn (Suc attempt)) = Some (Rejected error)"
      "\<not> int (Suc attempt) > retries_of options"
      "shouldRetry_of options error (Suc attempt) = Returns True"
      "onRetry_call options error (Suc attempt) = Returns ()"
      by blast
    have "m = nat (retries_of options + 1 - int (Suc attempt))" using Suc.hyps(2) by linarith
    then have "P (Suc attempt) (waitTime_of options currentDelay (random k)) (draws_after options k)"
      by (rule Suc.hyps(1))
    with h show ?thesis by (rule again)
  next
    case False
    then show ?thesis by (intro stop) auto
  qed
qed

subsection \<open>The shape of a trace\<close>

lemma trace_events:
  "ev \<in> set (snd (retry_loop fn random options attempt currentDelay k)) \<Longrightarrow>
   (case ev of
      Invoke n \<Rightarrow> attempt < n \<and> int n \<le> retries_of options + 1
    | ShouldRetry e n \<Rightarrow> attempt < n \<and> int n \<le> retries_of options
        \<and> attempt_outcome (timeout options) (fn n) = Some (Rejected e)
    | OnRetry e n \<Rightarrow> attempt < n \<and> int n \<le> retries_of options
        \<and> attempt_outcome (timeout options) (fn n) = Some (Rejected e)
        \<and> shouldRetry_of options e n = Returns True
    | Wait w \<Rightarrow> True)"
proof (induction attempt currentDelay k rule: retry_loop_induct [where fn = fn and options = options and random = random])
  case (stop attempt currentDelay k)
  show ?case
  proof (cases rule: retry_loop_cases [where attempt = attempt and options = options and fn = fn])
    case exhausted
    then show ?thesis using stop.prems by (simp add: retry_loop_exhausted)
  next
    case pending
    then show ?thesis using stop.prems by (auto simp add: retry_loop_pending [where fn = fn])
  next
    case (success v)
    then show ?thesis using stop.prems by (auto simp add: retry_loop_success [where fn = fn])
  next
    case (last error)
    then show ?thesis using stop.prems by (auto simp add: retry_loop_last [where fn = fn])
  next
    case (predicate_throws error x)
    then show ?thesis using stop.prems
      by (auto simp add: retry_loop_predicate_throws [where fn = fn])
  next
    case (declined error)
    then show ?thesis using stop.prems by (auto simp add: retry_loop_declined [where fn = fn])
  next
    case (hook_throws error x)
    then show ?thesis using stop.prems
      by (auto simp add: retry_loop_hook_throws [where fn = fn] onRetry_event_def split: option.splits)
  next
    case (again error)
    then show ?thesis using stop.hyps by simp
  qed
next
  case (again attempt currentDelay k error)
  from again.prems
  have "ev \<in> {Invoke (Suc attempt), ShouldRetry error (Suc attempt), Wait (waitTime_of options currentDelay (random k))}
        \<or> ev \<in> set (onRetry_event options error (Suc attempt))
        \<or> ev \<in> set (snd (retry_loop fn random options (Suc attempt)
                     (waitTime_of options currentDelay (random k)) (draws_after options k)))"
    unfolding retry_loop_again [where fn = fn, OF again.hyps] by auto
  then show ?case
  proof (elim disjE)
    assume "ev \<in> {Invoke (Suc attempt), ShouldRetry error (Suc attempt), Wait (waitTime_of options currentDelay (random k))}"
    then show ?thesis using again.hyps by auto
  next
    assume "ev \<in> set (onRetry_event options error (Suc attempt))"
    then show ?thesis using again.hyps by (auto simp add: onRetry_event_def split: option.splits)
  next
    assume "ev \<in> set (snd (retry_loop fn random options (Suc attempt)
                     (waitTime_of options currentDelay (random k)) (draws_after options k)))"
    from again.IH [OF this] show ?thesis by (cases ev) auto
  qed
qed

text \<open>
  Once the loop is entered, the run ends with its last attempt: as that attempt ended, or,
  when it failed and was not the last permitted, with what a hook threw for it.
\<close>

lemma started_loop:
  "int attempt \<le> retries_of options \<Longrightarrow>
   invocations (snd (retry_loop fn random options attempt currentDelay k)) \<noteq> []
   \<and> (fst (retry_loop fn random options attempt currentDelay k)
        = settle_result (attempt_outcome (timeout options)
            (fn (last (invocations (snd (retry_loop fn random options attempt currentDelay k))))))
      \<or> (\<exists>e x. attempt_outcome (timeout options)
              (fn (last (invocations (snd (retry_loop fn random options attempt currentDelay k)))))
              = Some (Rejected e)
            \<and> fst (retry_loop fn random options attempt currentDelay k) = Throw x
            \<and> (shouldRetry_of options e
                  (last (invocations (snd (retry_loop fn random options attempt currentDelay k))))
                  = Throws x
               \<or> onRetry_call options e
                    (last (invocations (snd (retry_loop fn random options attempt currentDelay k))))
                  = Throws x)))"
proof (induction attempt currentDelay k rule: retry_loop_induct [where fn = fn and options = options and random = random])
  case (stop attempt currentDelay k)
  show ?case
  proof (cases rule: retry_loop_cases [where attempt = attempt and options = options and fn = fn])
    case exhausted
    then show ?thesis using stop.prems by simp
  next
    case pending
    then show ?thesis by (simp add: retry_loop_pending [where fn = fn] settle_result_def)
  next
    case (success v)
    then show ?thesis by (simp add: retry_loop_success [where fn = fn] settle_result_def)
  next
    case (last error)
    then show ?thesis by (simp add: retry_loop_last [where fn = fn] settle_result_def)
  next
    case (predicate_throws error x)
    then show ?thesis by (simp add: retry_loop_predicate_throws [where fn = fn])
  next
    case (declined error)
    then show ?thesis by (simp add: retry_loop_declined [where fn = fn] settle_result_def)
  next
    case (hook_throws error x)
    then show ?thesis by (simp add: retry_loop_hook_throws [where fn = fn])
  next
    case (again error)
    then show ?thesis using stop.hyps by simp
  qed
next
  case (again attempt currentDelay k error)
  have le: "int (Suc attempt) \<le> retries_of options" using again.hyps(3) by linarith
  from again.IH [OF le] show ?case
    unfolding retry_loop_again [where fn = fn, OF again.hyps] by simp
qed

lemma finished_attempt:
  "Invoke n \<in> set (snd (retry_loop fn random options attempt currentDelay k)) \<Longrightarrow>
   (\<exists>v. attempt_outcome (timeout options) (fn n) = Some (Resolved v))
     \<or> attempt_outcome (timeout options) (fn n) = None
     \<or> int n > retries_of options \<Longrightarrow>
   last (snd (retry_loop fn random options attempt currentDelay k)) = Invoke n
   \<and> fst (retry_loop fn random options attempt currentDelay k)
       = settle_result (attempt_outcome (timeout options) (fn n))"
proof (induction attempt currentDelay k rule: retry_loop_induct [where fn = fn and options = options and random = random])
  case (stop attempt currentDelay k)
  show ?case
  proof (cases rule: retry_loop_cases [where attempt = attempt and options = options and fn = fn])
    case exhausted
    then show ?thesis using stop.prems by (simp add: retry_loop_exhausted)
  next
    case pending
    then show ?thesis using stop.prems by (auto simp add: retry_loop_pending [where fn = fn] settle_result_def)
  next
    case (success v)
    then show ?thesis using stop.prems by (auto simp add: retry_loop_success [where fn = fn] settle_result_def)
  next
    case (last error)
    then show ?thesis using stop.prems by (auto simp add: retry_loop_last [where fn = fn] settle_result_def)
  next
    case (predicate_throws error x)
    then show ?thesis using stop.prems
      by (auto simp add: retry_loop_predicate_throws [where fn = fn] settle_result_def)
  next
    case (declined error)
    then show ?thesis using stop.prems by (auto simp add: retry_loop_declined [where fn = fn] settle_result_def)
  next
    case (hook_throws error x)
    then show ?thesis using stop.prems
      by (auto simp add: retry_loop_hook_throws [where fn = fn] settle_result_def onRetry_event_def
          split: option.splits)
  next
    case (again error)
    then show ?thesis using stop.hyps by simp
  qed
next
  case (again attempt currentDelay k error)
  let ?rest = "retry_loop fn random options (Suc attempt)
                 (waitTime_of options currentDelay (random k)) (draws_after options k)"
  have ne: "n \<noteq> Suc attempt" using again.hyps(2,3) again.prems(2) by auto
  from again.prems(1) ne have mem: "Invoke n \<in> set (snd ?rest)"
    unfolding retry_loop_again [where fn = fn, OF again.hyps]
    by (auto simp add: onRetry_event_def split: option.splits)
  then have nonempty: "snd ?rest \<noteq> []" by auto
  from again.IH [OF mem again.prems(2)] nonempty show ?case
    unfolding retry_loop_again [where fn = fn, OF again.hyps] by simp
qed


text \<open>The waits of a run are the waits of the delay steps from the initial loop state.\<close>

lemma waits_follow_delay_steps:
  "waits (snd (retry_loop fn random options attempt currentDelay k))
   = map snd (delay_steps options random currentDelay k
                (length (waits (snd (retry_loop fn random options attempt currentDelay k)))))"
proof (induction attempt currentDelay k rule: retry_loop_induct [where fn = fn and options = options and random = random])
  case (stop attempt currentDelay k)
  show ?case
  proof (cases rule: retry_loop_cases [where attempt = attempt and options = options and fn = fn])
    case exhausted
    then show ?thesis by (simp add: retry_loop_exhausted)
  next
    case pending
    then show ?thesis by (simp add: retry_loop_pending [where fn = fn])
  next
    case (success v)
    then show ?thesis by (simp add: retry_loop_success [where fn = fn])
  next
    case (last error)
    then show ?thesis by (simp add: retry_loop_last [where fn = fn])
  next
    case (predicate_throws error x)
    then show ?thesis by (simp add: retry_loop_predicate_throws [where fn = fn])
  next
    case (declined error)
    then show ?thesis by (simp add: retry_loop_declined [where fn = fn])
  next
    case (hook_throws error x)
    then show ?thesis by (simp add: retry_loop_hook_throws [where fn = fn])
  next
    case (again error)
    then show ?thesis using stop.hyps by simp
  qed
next
  case (again attempt currentDelay k error)
  let ?rest = "retry_loop fn random options (Suc attempt)
                 (waitTime_of options currentDelay (random k)) (draws_after options k)"
  have w: "waits (snd (retry_loop fn random options attempt currentDelay k))
           = waitTime_of options currentDelay (random k) # waits (snd ?rest)"
    unfolding retry_loop_again [where fn = fn, OF again.hyps] by simp
  show ?case unfolding w using again.IH by simp
qed


subsection \<open>A permanently failing operation\<close>

lemma permanent_failure_loop:
  assumes fails: "\<forall>n. \<exists>e. attempt_outcome (timeout options) (fn n) = Some (Rejected e)"
      and always: "\<forall>e n. shouldRetry_of options e n = Returns True"
      and returns: "\<forall>e n. onRetry_call options e n = Returns ()"
  shows "int attempt \<le> retries_of options \<Longrightarrow>
         invocations (snd (retry_loop fn random options attempt currentDelay k))
           = [Suc attempt ..< nat (retries_of options) + 2]
         \<and> (\<exists>e. attempt_outcome (timeout options) (fn (nat (retries_of options) + 1)) = Some (Rejected e)
              \<and> fst (retry_loop fn random options attempt currentDelay k) = Throw e)"
proof (induction "nat (retries_of options) - attempt" arbitrary: attempt currentDelay k)
  case 0
  then have eq: "int (Suc attempt) > retries_of options" by linarith
  from fails obtain e where e: "attempt_outcome (timeout options) (fn (Suc attempt)) = Some (Rejected e)"
    by blast
  have n: "nat (retries_of options) = attempt" using 0 eq by linarith
  show ?case
    using retry_loop_last [where fn = fn, OF "0.prems" e eq] e n by (simp add: upt_rec)
next
  case (Suc m)
  then have lt: "\<not> int (Suc attempt) > retries_of options" by linarith
  from fails obtain e where e: "attempt_outcome (timeout options) (fn (Suc attempt)) = Some (Rejected e)"
    by blast
  have sr: "shouldRetry_of options e (Suc attempt) = Returns True" using always by blast
  have hr: "onRetry_call options e (Suc attempt) = Returns ()" using returns by blast
  have m: "m = nat (retries_of options) - Suc attempt" using Suc.hyps(2) by linarith
  have le: "int (Suc attempt) \<le> retries_of options" using lt by linarith
  note IH = Suc.hyps(1) [OF m le]
  have up: "[Suc attempt ..< nat (retries_of options) + 2]
            = Suc attempt # [Suc (Suc attempt) ..< nat (retries_of options) + 2]"
    using le by (simp add: upt_rec)
  show ?case
    unfolding retry_loop_again [where fn = fn, OF Suc.prems e lt sr hr]
    using IH up by simp
qed

subsection \<open>Runs on concrete inputs\<close>

lemmas concrete_defs = retry_def retry_loop.simps attempt_outcome_def truthy_def timer_delay_def
  defaults_def retries_of_def delay_of_def backoff_of_def jitter_of_def shouldRetry_of_def
  waitTime_of_def capped_delay_def randomFactor_def draws_after_def prepend_def
  onRetry_call_def onRetry_event_def
  failing_def half_def flaky_def hook_def throwing_hook_def never_retry_def
  takes_longer_def rejecting_on_timeout_def slowTask_def quickTask_def least_random_def

lemma run_failing_2:
  "retry failing half (defaults\<lparr>retries := Some 2\<rparr>)
   = (Throw (Value 3), [Invoke 1, ShouldRetry (Value 1) 1, Wait 1000,
                        Invoke 2, ShouldRetry (Value 2) 2, Wait 1000, Invoke 3])"
  by (simp add: concrete_defs)

lemma run_throwing_hook:
  "retry failing half (defaults\<lparr>retries := Some 2, onRetry := Some throwing_hook\<rparr>)
   = (Throw (Error ''hook failed''), [Invoke 1, ShouldRetry (Value 1) 1, OnRetry (Value 1) 1])"
  by (simp add: concrete_defs)

lemma run_negative:
  "retry failing half (defaults\<lparr>retries := Some (- 1)\<rparr>)
   = (Throw (Error ''Retry attempts exhausted.''), [])"
  by (simp add: concrete_defs)

lemma run_backoff_3:
  "retry failing half (defaults\<lparr>retries := Some 3, delay := Some 100, backoff := Some True\<rparr>)
   = (Throw (Value 4), [Invoke 1, ShouldRetry (Value 1) 1, Wait 200,
                        Invoke 2, ShouldRetry (Value 2) 2, Wait 400,
                        Invoke 3, ShouldRetry (Value 3) 3, Wait 800, Invoke 4])"
  by (simp add: concrete_defs)


subsection \<open>A permanently failing operation, and the hooks\<close>


text \<open>
  Claim C2, as stated (for every configuration with \<open>retries = R \<ge> 0\<close>, the default
  \<open>shouldRetry\<close> and a permanently failing operation, the operation is invoked \<open>R + 1\<close>
  times and the error of the last attempt is thrown), fails: with \<open>retries = 2\<close> and an
  \<open>onRetry\<close> hook that throws, the operation is invoked once and \<open>retry\<close> throws what the
  hook threw.
\<close>

theorem throwing_onRetry_counterexample:
  "length (invocations (snd (retry failing half
       (defaults\<lparr>retries := Some 2, onRetry := Some throwing_hook\<rparr>)))) \<noteq> 3
   \<and> fst (retry failing half (defaults\<lparr>retries := Some 2, onRetry := Some throwing_hook\<rparr>))
       \<noteq> Throw (Value 3)"
  by (simp add: run_throwing_hook)

text \<open>
  Claim C2, amended. With \<open>retries = R \<ge> 0\<close>, the default \<open>shouldRetry\<close>, an \<open>onRetry\<close> hook
  that, if supplied, returns from every call, and an operation of which every attempt
  fails, the operation is invoked exactly \<open>R + 1\<close> times (attempts \<open>1, ..., R + 1\<close>), and
  \<open>retry\<close> throws the error of attempt \<open>R + 1\<close>.
\<close>

theorem permanent_failure_invoked_retries_plus_one:
  assumes "0 \<le> R" and "retries_of options = R" and "shouldRetry options = None"
    and "\<forall>h e n. onRetry options = Some h \<longrightarrow> h e n = Returns ()"
    and "\<forall>n. \<exists>e. attempt_outcome (timeout options) (fn n) = Some (Rejected e)"
  shows "invocations (snd (retry fn random options)) = [1 ..< nat R + 2]
       \<and> length (invocations (snd (retry fn random options))) = nat R + 1
       \<and> (\<exists>e. attempt_outcome (timeout options) (fn (nat R + 1)) = Some (Rejected e)
            \<and> fst (retry fn random options) = Throw e)"
proof -
  have always: "\<forall>e n. shouldRetry_of options e n = Returns True"
    using assms(3) by (simp add: shouldRetry_of_def)
  have returns: "\<forall>e n. onRetry_call options e n = Returns ()"
    using assms(4) by (simp add: onRetry_call_def split: option.split)
  have le: "int 0 \<le> retries_of options" using assms(1,2) by simp
  from permanent_failure_loop [OF assms(5) always returns le, of random "delay_of options" 0]
  show ?thesis using assms(2) by (simp add: retry_def)
qed

theorem permanent_failure_invoked_retries_plus_one_witness:
  "(0::int) \<le> 2
   \<and> retries_of (defaults\<lparr>retries := Some 2, onRetry := Some hook\<rparr> :: nat RetryOptions) = 2
   \<and> shouldRetry (defaults\<lparr>retries := Some 2, onRetry := Some hook\<rparr> :: nat RetryOptions) = None
   \<and> onRetry (defaults\<lparr>retries := Some 2, onRetry := Some hook\<rparr> :: nat RetryOptions) = Some hook
   \<and> (\<forall>e n. hook (e :: nat thrown) n = Returns ())
   \<and> (\<forall>n. \<exists>e. attempt_outcome
          (timeout (defaults\<lparr>retries := Some 2, onRetry := Some hook\<rparr> :: nat RetryOptions)) (failing n)
          = Some (Rejected e))
   \<and> invocations (snd (retry failing half (defaults\<lparr>retries := Some 2, onRetry := Some hook\<rparr>)))
       = [1, 2, 3]
   \<and> fst (retry failing half (defaults\<lparr>retries := Some 2, onRetry := Some hook\<rparr>)) = Throw (Value 3)"
proof -
  let ?o = "defaults\<lparr>retries := Some 2, onRetry := Some hook\<rparr> :: nat RetryOptions"
  have h1: "(0::int) \<le> 2" by simp
  have h2: "retries_of ?o = 2" by (simp add: retries_of_def defaults_def)
  have h3: "shouldRetry ?o = None" by (simp add: defaults_def)
  have h4: "\<forall>h e n. onRetry ?o = Some h \<longrightarrow> h e n = Returns ()"
    by (auto simp add: hook_def)
  have h5: "\<forall>n. \<exists>e. attempt_outcome (timeout ?o) (failing n) = Some (Rejected e)"
    by (simp add: attempt_outcome_def truthy_def failing_def defaults_def)
  have h6: "attempt_outcome (timeout ?o) (failing (nat 2 + 1)) = Some (Rejected (Value 3))"
    by (simp add: attempt_outcome_def truthy_def failing_def defaults_def)
  have up: "[1 ..< nat 2 + 2] = [1, 2, 3]" by (simp add: upt_rec)
  from permanent_failure_invoked_retries_plus_one [OF h1 h2 h3 h4 h5, of half]
  obtain e where inv: "invocations (snd (retry failing half ?o)) = [1 ..< nat 2 + 2]"
    and e: "attempt_outcome (timeout ?o) (failing (nat 2 + 1)) = Some (Rejected e)"
    and r: "fst (retry failing half ?o) = Throw e"
    by blast
  from e h6 have "e = Value 3" by simp
  have h7: "onRetry ?o = Some hook" by simp
  have h8: "\<forall>e n. hook (e :: nat thrown) n = Returns ()" by (simp add: hook_def)
  from \<open>e = Value 3\<close> inv r up h1 h2 h3 h5 h7 h8 show ?thesis by simp
qed

subsection \<open>The last permitted attempt\<close>

text \<open>
  Claim C10. With \<open>retries = R \<ge> 0\<close>, neither \<open>shouldRetry\<close> nor \<open>onRetry\<close> is ever called
  for attempt \<open>R + 1\<close>; when that attempt is made and fails, its error is thrown and the
  invocation is the last event of the run.
\<close>

theorem last_attempt_skips_shouldRetry:
  assumes "0 \<le> R" and "retries_of options = R"
  shows "(\<forall>e. ShouldRetry e (nat R + 1) \<notin> set (snd (retry fn random options)))
       \<and> (\<forall>e. OnRetry e (nat R + 1) \<notin> set (snd (retry fn random options)))
       \<and> (\<forall>e. Invoke (nat R + 1) \<in> set (snd (retry fn random options)) \<longrightarrow>
               attempt_outcome (timeout options) (fn (nat R + 1)) = Some (Rejected e) \<longrightarrow>
               fst (retry fn random options) = Throw e
               \<and> last (snd (retry fn random options)) = Invoke (nat R + 1))"
proof (intro conjI allI impI)
  fix e
  show "ShouldRetry e (nat R + 1) \<notin> set (snd (retry fn random options))"
    using trace_events [where ev = "ShouldRetry e (nat R + 1)" and fn = fn and options = options] assms
    unfolding retry_def by fastforce
  show "OnRetry e (nat R + 1) \<notin> set (snd (retry fn random options))"
    using trace_events [where ev = "OnRetry e (nat R + 1)" and fn = fn and options = options] assms
    unfolding retry_def by fastforce
next
  fix e
  assume inv: "Invoke (nat R + 1) \<in> set (snd (retry fn random options))"
    and rej: "attempt_outcome (timeout options) (fn (nat R + 1)) = Some (Rejected e)"
  have gt: "int (nat R + 1) > retries_of options" using assms by simp
  from finished_attempt [where fn = fn and n = "nat R + 1" and options = options] inv gt rej
  show "fst (retry fn random options) = Throw e"
    and "last (snd (retry fn random options)) = Invoke (nat R + 1)"
    unfolding retry_def by (simp_all add: settle_result_def)
qed

theorem last_attempt_skips_shouldRetry_witness:
  "(0::int) \<le> 2 \<and> retries_of (defaults\<lparr>retries := Some 2\<rparr> :: nat RetryOptions) = 2
   \<and> Invoke 3 \<in> set (snd (retry failing half (defaults\<lparr>retries := Some 2\<rparr>)))
   \<and> attempt_outcome (timeout (defaults\<lparr>retries := Some 2\<rparr> :: nat RetryOptions)) (failing 3)
       = Some (Rejected (Value 3))
   \<and> ShouldRetry (Value 3) 3 \<notin> set (snd (retry failing half (defaults\<lparr>retries := Some 2\<rparr>)))
   \<and> OnRetry (Value 3) 3 \<notin> set (snd (retry failing half (defaults\<lparr>retries := Some 2\<rparr>)))
   \<and> fst (retry failing half (defaults\<lparr>retries := Some 2\<rparr>)) = Throw (Value 3)"
proof -
  let ?o = "defaults\<lparr>retries := Some 2\<rparr> :: nat RetryOptions"
  have h1: "(0::int) \<le> 2" by simp
  have h2: "retries_of ?o = 2" by (simp add: retries_of_def defaults_def)
  have h3: "Invoke (nat 2 + 1) \<in> set (snd (retry failing half ?o))" by (simp add: run_failing_2)
  have h4: "attempt_outcome (timeout ?o) (failing (nat 2 + 1)) = Some (Rejected (Value 3))"
    by (simp add: attempt_outcome_def truthy_def failing_def defaults_def)
  from last_attempt_skips_shouldRetry [OF h1 h2, of failing half] h3 h4
  show ?thesis using h2 by simp
qed

subsection \<open>Success\<close>

text \<open>
  Claim C7. When an attempt that is made resolves, \<open>retry\<close> returns its value and the
  invocation is the last event of the run: no further attempt, no wait, no hook call. With
  \<open>retries = 5\<close>, an \<open>onRetry\<close> hook, attempt 1 failing (and \<open>shouldRetry\<close> letting it be
  retried) and attempt 2 resolving, \<open>onRetry\<close> is called exactly once, with attempt 1; when
  that call returns, the run is: attempt 1, \<open>shouldRetry\<close>, \<open>onRetry\<close> for attempt 1, one wait,
  attempt 2, and \<open>retry\<close> returns the value of attempt 2; when that call throws, the run
  ends there with what it threw.
\<close>

theorem success_returns_immediately:
  "(\<forall>n v. Invoke n \<in> set (snd (retry fn random options)) \<longrightarrow>
           attempt_outcome (timeout options) (fn n) = Some (Resolved v) \<longrightarrow>
           fst (retry fn random options) = Return v
           \<and> last (snd (retry fn random options)) = Invoke n)
   \<and> (retries_of options = 5 \<longrightarrow> onRetry options = Some h \<longrightarrow>
        shouldRetry_of options e 1 = Returns True \<longrightarrow>
        attempt_outcome (timeout options) (fn 1) = Some (Rejected e) \<longrightarrow>
        attempt_outcome (timeout options) (fn 2) = Some (Resolved v2) \<longrightarrow>
        onRetry_calls (snd (retry fn random options)) = [(e, 1)]
        \<and> (h e 1 = Returns () \<longrightarrow>
             retry fn random options
               = (Return v2, [Invoke 1, ShouldRetry e 1, OnRetry e 1,
                              Wait (waitTime_of options (delay_of options) (random 0)), Invoke 2]))
        \<and> (\<forall>x. h e 1 = Throws x \<longrightarrow>
             retry fn random options = (Throw x, [Invoke 1, ShouldRetry e 1, OnRetry e 1])))"
proof (intro conjI allI impI)
  fix n v
  assume inv: "Invoke n \<in> set (snd (retry fn random options))"
    and res: "attempt_outcome (timeout options) (fn n) = Some (Resolved v)"
  from finished_attempt [where fn = fn and n = n and options = options] inv res
  show "fst (retry fn random options) = Return v"
    and "last (snd (retry fn random options)) = Invoke n"
    unfolding retry_def by (simp_all add: settle_result_def)
next
  assume R: "retries_of options = 5" and h: "onRetry options = Some h"
    and sr: "shouldRetry_of options e 1 = Returns True"
    and a1: "attempt_outcome (timeout options) (fn 1) = Some (Rejected e)"
    and a2: "attempt_outcome (timeout options) (fn 2) = Some (Resolved v2)"
  have le0: "int 0 \<le> retries_of options" and le1: "int (Suc 0) \<le> retries_of options"
    and nl: "\<not> int (Suc 0) > retries_of options"
    using R by simp_all
  have a1': "attempt_outcome (timeout options) (fn (Suc 0)) = Some (Rejected e)" using a1 by simp
  have a2': "attempt_outcome (timeout options) (fn (Suc (Suc 0))) = Some (Resolved v2)"
    using a2 by (simp add: numeral_2_eq_2)
  have sr': "shouldRetry_of options e (Suc 0) = Returns True" using sr by simp
  have call: "onRetry_call options e (Suc 0) = h e 1" using h by (simp add: onRetry_call_def)
  have ev: "onRetry_event options e (Suc 0) = [OnRetry e 1]" using h by (simp add: onRetry_event_def)
  have returned: "retry fn random options
          = (Return v2, [Invoke 1, ShouldRetry e 1, OnRetry e 1,
                         Wait (waitTime_of options (delay_of options) (random 0)), Invoke 2])"
    if "h e 1 = Returns ()"
  proof -
    from that call have c: "onRetry_call options e (Suc 0) = Returns ()" by simp
    show ?thesis
      unfolding retry_def
      by (simp add: retry_loop_again [where fn = fn, OF le0 a1' nl sr' c]
          retry_loop_success [where fn = fn, OF le1 a2'] prepend_def ev numeral_2_eq_2)
  qed
  have threw: "retry fn random options = (Throw x, [Invoke 1, ShouldRetry e 1, OnRetry e 1])"
    if "h e 1 = Throws x" for x
  proof -
    from that call have c: "onRetry_call options e (Suc 0) = Throws x" by simp
    show ?thesis
      unfolding retry_def
      by (simp add: retry_loop_hook_throws [where fn = fn, OF le0 a1' nl sr' c] ev)
  qed
  show "onRetry_calls (snd (retry fn random options)) = [(e, 1)]"
  proof (cases "h e 1")
    case (Returns u)
    then have "h e 1 = Returns ()" by simp
    then show ?thesis by (simp add: returned)
  next
    case (Throws x)
    then show ?thesis by (simp add: threw)
  qed
  show "retry fn random options
          = (Return v2, [Invoke 1, ShouldRetry e 1, OnRetry e 1,
                         Wait (waitTime_of options (delay_of options) (random 0)), Invoke 2])"
    if "h e 1 = Returns ()"
    using that by (rule returned)
  show "retry fn random options = (Throw x, [Invoke 1, ShouldRetry e 1, OnRetry e 1])"
    if "h e 1 = Throws x" for x
    using that by (rule threw)
qed

theorem success_returns_immediately_witness:
  "retries_of (defaults\<lparr>retries := Some 5, onRetry := Some hook\<rparr> :: nat RetryOptions) = 5
   \<and> onRetry (defaults\<lparr>retries := Some 5, onRetry := Some hook\<rparr> :: nat RetryOptions) = Some hook
   \<and> shouldRetry_of (defaults\<lparr>retries := Some 5, onRetry := Some hook\<rparr>) (Value (1::nat)) 1
       = Returns True
   \<and> attempt_outcome (timeout (defaults\<lparr>retries := Some 5, onRetry := Some hook\<rparr> :: nat RetryOptions))
        (flaky 1) = Some (Rejected (Value 1))
   \<and> attempt_outcome (timeout (defaults\<lparr>retries := Some 5, onRetry := Some hook\<rparr> :: nat RetryOptions))
        (flaky 2) = Some (Resolved ''ok'')
   \<and> hook (Value (1::nat)) 1 = Returns ()
   \<and> Invoke 2 \<in> set (snd (retry flaky half (defaults\<lparr>retries := Some 5, onRetry := Some hook\<rparr>)))
   \<and> fst (retry flaky half (defaults\<lparr>retries := Some 5, onRetry := Some hook\<rparr>)) = Return ''ok''
   \<and> last (snd (retry flaky half (defaults\<lparr>retries := Some 5, onRetry := Some hook\<rparr>))) = Invoke 2
   \<and> onRetry_calls (snd (retry flaky half (defaults\<lparr>retries := Some 5, onRetry := Some hook\<rparr>)))
       = [(Value 1, 1)]"
proof -
  let ?o = "defaults\<lparr>retries := Some 5, onRetry := Some hook\<rparr> :: nat RetryOptions"
  have h1: "retries_of ?o = 5" by (simp add: retries_of_def defaults_def)
  have h2: "onRetry ?o = Some hook" by simp
  have h3: "shouldRetry_of ?o (Value (1::nat)) 1 = Returns True"
    by (simp add: shouldRetry_of_def defaults_def)
  have h4: "attempt_outcome (timeout ?o) (flaky 1) = Some (Rejected (Value 1))"
    by (simp add: attempt_outcome_def truthy_def flaky_def defaults_def)
  have h5: "attempt_outcome (timeout ?o) (flaky 2) = Some (Resolved ''ok'')"
    by (simp add: attempt_outcome_def truthy_def flaky_def defaults_def)
  have h7: "hook (Value (1::nat)) 1 = Returns ()" by (simp add: hook_def)
  note inst = success_returns_immediately [of flaky half ?o hook "Value 1" "''ok''"]
  from inst h1 h2 h3 h4 h5 h7
  have run: "retry flaky half ?o
          = (Return ''ok'', [Invoke 1, ShouldRetry (Value 1) 1, OnRetry (Value 1) 1,
                         Wait (waitTime_of ?o (delay_of ?o) (half 0)), Invoke 2])"
    and calls: "onRetry_calls (snd (retry flaky half ?o)) = [(Value 1, 1)]"
    by blast+
  have h6: "Invoke 2 \<in> set (snd (retry flaky half ?o))" by (simp add: run)
  from inst h6 h5
  have "fst (retry flaky half ?o) = Return ''ok'' \<and> last (snd (retry flaky half ?o)) = Invoke 2"
    by blast
  with h1 h2 h3 h4 h5 h6 h7 calls show ?thesis by simp
qed

subsection \<open>A negative retry budget\<close>

text \<open>
  Claim C5. With \<open>retries < 0\<close> the loop is never entered: the operation is not invoked and
  \<open>retry\<close> throws \<open>Error("Retry attempts exhausted.")\<close>. With \<open>retries \<ge> 0\<close> that throw is
  not reached: at least one attempt is made, and \<open>retry\<close> ends as the last attempt made
  ended, or, when that attempt failed, with what \<open>shouldRetry\<close> or \<open>onRetry\<close> threw for it.
\<close>

theorem exhaustion_only_without_attempt:
  "(retries_of options < 0 \<longrightarrow>
      retry fn random options = (Throw (Error ''Retry attempts exhausted.''), []))
   \<and> (0 \<le> retries_of options \<longrightarrow>
        invocations (snd (retry fn random options)) \<noteq> []
        \<and> (fst (retry fn random options)
              = settle_result (attempt_outcome (timeout options)
                  (fn (last (invocations (snd (retry fn random options))))))
           \<or> (\<exists>e x. attempt_outcome (timeout options)
                    (fn (last (invocations (snd (retry fn random options))))) = Some (Rejected e)
                 \<and> fst (retry fn random options) = Throw x
                 \<and> (shouldRetry_of options e (last (invocations (snd (retry fn random options))))
                       = Throws x
                    \<or> onRetry_call options e (last (invocations (snd (retry fn random options))))
                       = Throws x))))"
proof (intro conjI impI)
  assume "retries_of options < 0"
  then have "\<not> int 0 \<le> retries_of options" by simp
  then show "retry fn random options = (Throw (Error ''Retry attempts exhausted.''), [])"
    unfolding retry_def by (rule retry_loop_exhausted)
next
  assume "0 \<le> retries_of options"
  then have le: "int 0 \<le> retries_of options" by simp
  note started = started_loop [where fn = fn, OF le, of random "delay_of options" 0]
  from started show "invocations (snd (retry fn random options)) \<noteq> []"
    unfolding retry_def by blast
  from started show "fst (retry fn random options)
              = settle_result (attempt_outcome (timeout options)
                  (fn (last (invocations (snd (retry fn random options))))))
           \<or> (\<exists>e x. attempt_outcome (timeout options)
                    (fn (last (invocations (snd (retry fn random options))))) = Some (Rejected e)
                 \<and> fst (retry fn random options) = Throw x
                 \<and> (shouldRetry_of options e (last (invocations (snd (retry fn random options))))
                       = Throws x
                    \<or> onRetry_call options e (last (invocations (snd (retry fn random options))))
                       = Throws x))"
    unfolding retry_def by blast
qed

theorem exhaustion_only_without_attempt_witness:
  "retries_of (defaults\<lparr>retries := Some (- 1)\<rparr> :: nat RetryOptions) < 0
   \<and> retry failing half (defaults\<lparr>retries := Some (- 1)\<rparr>)
       = (Throw (Error ''Retry attempts exhausted.''), [])
   \<and> 0 \<le> retries_of (defaults\<lparr>retries := Some 0\<rparr> :: nat RetryOptions)
   \<and> invocations (snd (retry failing half (defaults\<lparr>retries := Some 0\<rparr>))) \<noteq> []"
proof -
  have h1: "retries_of (defaults\<lparr>retries := Some (- 1)\<rparr> :: nat RetryOptions) < 0"
    by (simp add: retries_of_def defaults_def)
  have h2: "0 \<le> retries_of (defaults\<lparr>retries := Some 0\<rparr> :: nat RetryOptions)"
    by (simp add: retries_of_def defaults_def)
  from exhaustion_only_without_attempt [of "defaults\<lparr>retries := Some (- 1)\<rparr>" failing half]
    exhaustion_only_without_attempt [of "defaults\<lparr>retries := Some 0\<rparr>" failing half] h1 h2
  show ?thesis by blast
qed

text \<open>
  Claim C4, as stated (with negative \<open>retries\<close> the operation is invoked exactly once),
  fails: with \<open>retries = -1\<close> the number of invocations is not 1.
\<close>

theorem negative_retries_counterexample:
  "length (invocations (snd (retry failing half (defaults\<lparr>retries := Some (- 1)\<rparr>)))) \<noteq> 1"
  by (simp add: run_negative)

text \<open>
  Claim C4, amended. With \<open>retries < 0\<close> no attempt runs and no retry occurs: the operation
  is never invoked, nothing is waited for, no hook is called, and \<open>retry\<close> fails with the
  exhaustion error.
\<close>

theorem negative_retries_never_invoke:
  assumes "retries_of options < 0"
  shows "invocations (snd (retry fn random options)) = []
       \<and> waits (snd (retry fn random options)) = []
       \<and> shouldRetry_calls (snd (retry fn random options)) = []
       \<and> onRetry_calls (snd (retry fn random options)) = []
       \<and> fst (retry fn random options) = Throw (Error ''Retry attempts exhausted.'')"
proof -
  from assms have "\<not> int 0 \<le> retries_of options" by simp
  then have "retry fn random options = (Throw (Error ''Retry attempts exhausted.''), [])"
    unfolding retry_def by (rule retry_loop_exhausted)
  then show ?thesis by simp
qed

theorem negative_retries_never_invoke_witness:
  "retries_of (defaults\<lparr>retries := Some (- 1)\<rparr> :: nat RetryOptions) < 0
   \<and> invocations (snd (retry failing half (defaults\<lparr>retries := Some (- 1)\<rparr>))) = []
   \<and> fst (retry failing half (defaults\<lparr>retries := Some (- 1)\<rparr>))
       = Throw (Error ''Retry attempts exhausted.'')"
proof -
  have h: "retries_of (defaults\<lparr>retries := Some (- 1)\<rparr> :: nat RetryOptions) < 0"
    by (simp add: retries_of_def defaults_def)
  from negative_retries_never_invoke [OF h, of failing half] h show ?thesis by simp
qed

subsection \<open>Declining the first retry\<close>

text \<open>
  Claim C6. With \<open>retries \<ge> 1\<close>, attempt 1 failing and \<open>shouldRetry\<close> returning false for
  it, the operation is invoked exactly once, the error of attempt 1 is thrown, nothing is
  waited for and \<open>onRetry\<close> is not called: the run is the invocation and the call of
  \<open>shouldRetry\<close>.
\<close>

theorem declined_first_attempt_propagates:
  assumes "1 \<le> retries_of options"
    and "attempt_outcome (timeout options) (fn 1) = Some (Rejected e)"
    and "shouldRetry_of options e 1 = Returns False"
  shows "fst (retry fn random options) = Throw e
       \<and> invocations (snd (retry fn random options)) = [1]
       \<and> waits (snd (retry fn random options)) = []
       \<and> onRetry_calls (snd (retry fn random options)) = []
       \<and> snd (retry fn random options) = [Invoke 1, ShouldRetry e 1]"
proof -
  have le: "int 0 \<le> retries_of options" and nl: "\<not> int (Suc 0) > retries_of options"
    using assms(1) by simp_all
  have a: "attempt_outcome (timeout options) (fn (Suc 0)) = Some (Rejected e)"
    using assms(2) by simp
  have sr: "shouldRetry_of options e (Suc 0) = Returns False" using assms(3) by simp
  show ?thesis
    unfolding retry_def retry_loop_declined [where fn = fn, OF le a nl sr] by simp
qed

theorem declined_first_attempt_propagates_witness:
  "1 \<le> retries_of (defaults\<lparr>shouldRetry := Some never_retry, onRetry := Some hook\<rparr> :: nat RetryOptions)
   \<and> attempt_outcome (timeout (defaults\<lparr>shouldRetry := Some never_retry, onRetry := Some hook\<rparr> :: nat RetryOptions))
        (failing 1) = Some (Rejected (Value 1))
   \<and> shouldRetry_of (defaults\<lparr>shouldRetry := Some never_retry, onRetry := Some hook\<rparr>) (Value (1::nat)) 1
       = Returns False
   \<and> fst (retry failing half (defaults\<lparr>shouldRetry := Some never_retry, onRetry := Some hook\<rparr>)) = Throw (Value 1)
   \<and> snd (retry failing half (defaults\<lparr>shouldRetry := Some never_retry, onRetry := Some hook\<rparr>))
       = [Invoke 1, ShouldRetry (Value 1) 1]"
proof -
  let ?o = "defaults\<lparr>shouldRetry := Some never_retry, onRetry := Some hook\<rparr> :: nat RetryOptions"
  have h1: "1 \<le> retries_of ?o" by (simp add: retries_of_def defaults_def)
  have h2: "attempt_outcome (timeout ?o) (failing 1) = Some (Rejected (Value 1))"
    by (simp add: attempt_outcome_def truthy_def failing_def defaults_def)
  have h3: "shouldRetry_of ?o (Value (1::nat)) 1 = Returns False"
    by (simp add: shouldRetry_of_def never_retry_def)
  from declined_first_attempt_propagates [where fn = failing and random = half, OF h1 h2 h3] h1 h2 h3
  show ?thesis by simp
qed

subsection \<open>The sequence of waits\<close>

text \<open>
  Claim C1 (with \<open>delay = 100\<close>, \<open>backoff = true\<close>, \<open>retries = 3\<close> and no jitter the waits of a
  permanently failing operation are 100, 200, 400: the first retry waits the base delay)
  at that input: the run waits 200, 400, 800. Lines 92 to 94 double \<open>currentDelay\<close> before
  the first wait too, so the base delay is never waited for.
\<close>

theorem backoff_first_wait_is_doubled:
  "waits (snd (retry failing half (defaults\<lparr>retries := Some 3, delay := Some 100, backoff := Some True\<rparr>)))
     = [200, 400, 800]
   \<and> waits (snd (retry failing half (defaults\<lparr>retries := Some 3, delay := Some 100, backoff := Some True\<rparr>)))
     \<noteq> [100, 200, 400]"
  by (simp add: run_backoff_3)

subsection \<open>The delay computation against the specification\<close>

text \<open>
  Unless \<open>maxDelay\<close> is \<open>0\<close>, one step of the source is one step of the specification.
\<close>

lemma waitTime_of_is_spec:
  "maxDelay options \<noteq> Some 0 \<Longrightarrow>
   waitTime_of options currentDelay r
   = spec_computeNextDelay currentDelay options (randomFactor r)"
  by (cases "maxDelay options")
     (simp_all add: waitTime_of_def capped_delay_def spec_computeNextDelay_def truthy_def Let_def)

text \<open>
  With \<open>backoff\<close> and \<open>maxDelay = 1500\<close>, from \<open>delay = 1000\<close>: the delay before the jitter is
  1500 at the first and at the second retry, with or without jitter.
\<close>

lemma capped_before_jitter:
  assumes "backoff_of options" and "maxDelay options = Some 1500"
    and "\<forall>j. 0 \<le> random j \<and> random j < 1"
  shows "map fst (delay_steps options random 1000 0 2) = [1500, 1500]"
proof -
  have c1: "capped_delay options 1000 = 1500"
    using assms(1,2) by (simp add: capped_delay_def truthy_def)
  have r0: "0 \<le> random 0" using assms(3) by blast
  have f: "0.8 \<le> randomFactor (random 0)" using r0 by (simp add: randomFactor_def)
  have "1500 * randomFactor (random 0) \<ge> 1500 * 0.8" using f by (intro mult_left_mono) simp_all
  then have w: "waitTime_of options 1000 (random 0) \<ge> 1200"
    using c1 by (simp add: waitTime_of_def)
  have c2: "capped_delay options (waitTime_of options 1000 (random 0)) = 1500"
    using assms(1,2) w by (simp add: capped_delay_def truthy_def)
  show ?thesis by (simp add: numeral_2_eq_2 c1 c2)
qed

text \<open>
  Claim C3 (one step of the delay computation equals the reference definition, which clamps
  to \<open>maxDelay\<close> whenever \<open>maxDelay\<close> is set) at \<open>delay = 100\<close>, \<open>maxDelay = 0\<close>: the source tests
  \<open>maxDelay && ...\<close>, so the cap \<open>0\<close> is not applied and the run waits 100 ms, where the
  reference definition gives 0.
\<close>

theorem zero_maxDelay_is_not_a_cap:
  "waits (snd (retry failing half (defaults\<lparr>retries := Some 1, delay := Some 100, maxDelay := Some 0\<rparr>)))
     = [100]
   \<and> waitTime_of (defaults\<lparr>retries := Some 1, delay := Some 100, maxDelay := Some 0\<rparr> :: nat RetryOptions)
       100 (half 0) = 100
   \<and> spec_computeNextDelay 100
       (defaults\<lparr>retries := Some 1, delay := Some 100, maxDelay := Some 0\<rparr> :: nat RetryOptions)
       (randomFactor (half 0)) = 0"
  by (simp add: concrete_defs spec_computeNextDelay_def)

subsection \<open>Jitter\<close>

lemma jitter_step:
  assumes "jitter_of options" and "0 \<le> r" and "r < 1"
  shows "within_jitter (capped_delay options c) (waitTime_of options c r)"
proof -
  have f: "0.8 \<le> randomFactor r" "randomFactor r \<le> 1.2"
    using assms(2,3) by (simp_all add: randomFactor_def)
  let ?p = "capped_delay options c"
  show ?thesis
  proof (cases "0 \<le> ?p")
    case True
    have "?p * 0.8 \<le> ?p * randomFactor r"
      using f(1) True by (rule mult_left_mono)
    moreover have "?p * randomFactor r \<le> ?p * 1.2"
      using f(2) True by (rule mult_left_mono)
    ultimately show ?thesis using True assms(1) by (simp add: within_jitter_def waitTime_of_def mult.commute)
  next
    case False
    then have neg: "?p \<le> 0" by simp
    have "?p * 1.2 \<le> ?p * randomFactor r"
      using f(2) neg by (rule mult_left_mono_neg)
    moreover have "?p * randomFactor r \<le> ?p * 0.8"
      using f(1) neg by (rule mult_left_mono_neg)
    ultimately show ?thesis using False assms(1) by (simp add: within_jitter_def waitTime_of_def mult.commute)
  qed
qed

lemma jitter_steps:
  assumes "jitter_of options" and "\<forall>j. 0 \<le> random j \<and> random j < 1"
  shows "list_all (\<lambda>(p, w). within_jitter p w) (delay_steps options random c k n)"
proof (induction n arbitrary: c k)
  case 0
  show ?case by simp
next
  case (Suc n)
  have "within_jitter (capped_delay options c) (waitTime_of options c (random k))"
    using assms by (intro jitter_step) auto
  with Suc show ?case by simp
qed

text \<open>
  Claim C8. With \<open>jitter = true\<close> and a random value in \<open>[0, 1)\<close>, the computed wait lies
  between 0.8 times and 1.2 times the delay before the jitter (after the doubling and the
  cap), inclusive. In a run whose random source stays in \<open>[0, 1)\<close>, the waits are the
  waits of the delay steps, each within these bounds of its delay before the jitter.
\<close>

theorem jitter_within_twenty_percent:
  assumes "jitter_of options"
  shows "(0 \<le> r \<and> r < 1 \<longrightarrow> within_jitter (capped_delay options c) (waitTime_of options c r))
       \<and> ((\<forall>j. 0 \<le> random j \<and> random j < 1) \<longrightarrow>
            waits (snd (retry fn random options))
              = map snd (delay_steps options random (delay_of options) 0
                           (length (waits (snd (retry fn random options)))))
            \<and> list_all (\<lambda>(p, w). within_jitter p w)
                (delay_steps options random (delay_of options) 0
                   (length (waits (snd (retry fn random options))))))"
proof (intro conjI impI)
  assume "0 \<le> r \<and> r < 1"
  with assms show "within_jitter (capped_delay options c) (waitTime_of options c r)"
    by (intro jitter_step) auto
next
  show "waits (snd (retry fn random options))
        = map snd (delay_steps options random (delay_of options) 0
                     (length (waits (snd (retry fn random options)))))"
    unfolding retry_def by (rule waits_follow_delay_steps)
next
  assume "\<forall>j. 0 \<le> random j \<and> random j < 1"
  with assms show "list_all (\<lambda>(p, w). within_jitter p w)
                (delay_steps options random (delay_of options) 0
                   (length (waits (snd (retry fn random options)))))"
    by (rule jitter_steps)
qed

theorem jitter_within_twenty_percent_witness:
  "jitter_of (defaults\<lparr>retries := Some 1, delay := Some 100, jitter := Some True\<rparr> :: nat RetryOptions)
   \<and> ((0::real) \<le> 0 \<and> (0::real) < 1)
   \<and> (\<forall>j. 0 \<le> least_random j \<and> least_random j < 1)
   \<and> capped_delay (defaults\<lparr>retries := Some 1, delay := Some 100, jitter := Some True\<rparr> :: nat RetryOptions) 100 = 100
   \<and> waitTime_of (defaults\<lparr>retries := Some 1, delay := Some 100, jitter := Some True\<rparr> :: nat RetryOptions) 100 0 = 80
   \<and> within_jitter 100 80
   \<and> waits (snd (retry failing least_random (defaults\<lparr>retries := Some 1, delay := Some 100, jitter := Some True\<rparr>)))
       = [80]
   \<and> list_all (\<lambda>(p, w). within_jitter p w) [(100, 80)]"
proof -
  let ?o = "defaults\<lparr>retries := Some 1, delay := Some 100, jitter := Some True\<rparr> :: nat RetryOptions"
  have h1: "jitter_of ?o" by (simp add: jitter_of_def)
  have h2: "(0::real) \<le> 0 \<and> (0::real) < 1" by simp
  have h3: "\<forall>j. 0 \<le> least_random j \<and> least_random j < 1" by (simp add: least_random_def)
  have c: "capped_delay ?o 100 = 100"
    by (simp add: capped_delay_def backoff_of_def truthy_def defaults_def)
  have w: "waitTime_of ?o 100 0 = 80"
    by (simp add: waitTime_of_def c h1 randomFactor_def)
  have run: "waits (snd (retry failing least_random ?o)) = [80]"
    by (simp add: concrete_defs least_random_def)
  have d: "delay_of ?o = 100" by (simp add: delay_of_def)
  have steps: "delay_steps ?o least_random 100 0 (length [80::real]) = [(100, 80)]"
    by (simp add: c w least_random_def)
  note inst = jitter_within_twenty_percent [OF h1, of 0 100 least_random failing]
  from inst h2 have a: "within_jitter 100 80" by (simp add: c w)
  from inst h3
  have "list_all (\<lambda>(p, w). within_jitter p w)
          (delay_steps ?o least_random (delay_of ?o) 0
             (length (waits (snd (retry failing least_random ?o)))))"
    by blast
  then have b: "list_all (\<lambda>(p, w). within_jitter p w) [(100, 80)]"
    by (simp only: run d steps)
  from h1 h2 h3 c w a b run show ?thesis by blast
qed

subsection \<open>Timeout\<close>






end
